theory Spec2Isabelle
  imports Complex_Main "HOL-Library.Multiset" "HOL-Library.Sublist"
begin

section \<open>Numbers, the wall clock and a queue\<close>

text \<open>
  The batching interval and threshold of \<open>DatabaseManager\<close> are Python numbers: the
  defaults are \<open>1\<close> and \<open>99999\<close>, and \<open>close\<close> sets both to \<open>float('inf')\<close>. A number is
  therefore either finite or positive infinity; \<open>ge_num v b\<close> is Python's \<open>v >= b\<close> for a
  finite \<open>v\<close> (nothing finite reaches infinity).
\<close>

datatype number = Num real | PosInf

fun ge_num :: "real \<Rightarrow> number \<Rightarrow> bool" where
  "ge_num v (Num b) = (b \<le> v)"
| "ge_num v PosInf = False"

text \<open>
  \<open>time.time()\<close> is an input of the program. The \<open>n\<close>-th reading of the wall clock is
  \<open>clock n\<close>; every function that reads the clock takes the index of the next reading and
  returns the index after its last one.
\<close>

type_synonym clock = "nat \<Rightarrow> real"

text \<open>Two clocks for concrete runs: one advances a second per reading, one stands still.\<close>

definition steady_clock :: clock where
  "steady_clock n = real n"

definition stopped_clock :: clock where
  "stopped_clock n = 0"

section \<open>The batch collector\<close>

text \<open>
  \<open>_get_messages_in_batch\<close>. A \<open>queue.Queue\<close> is the list of its items, oldest first;
  \<open>get(block=False)\<close> takes the head and raises \<open>queue.Empty\<close> on the empty list.
  \<open>batch_loop\<close> is the \<open>while True\<close> loop: each iteration reads the clock once, tests
  \<open>time.time() - start >= interval or len(messages) >= threshold\<close>, then tries one \<open>get\<close>.
  On an empty queue both ways out of the iteration (the test, or \<open>queue.Empty\<close>) are the
  same \<open>break\<close>, which is the first equation. The result is the batch, the queue left
  behind and the index of the next clock reading.
\<close>

fun batch_loop ::
  "clock \<Rightarrow> real \<Rightarrow> number \<Rightarrow> number \<Rightarrow> nat \<Rightarrow> 'a list \<Rightarrow> 'a list \<Rightarrow> 'a list \<times> 'a list \<times> nat" where
  "batch_loop clk start interval threshold t [] messages =
     (messages, [], Suc t)"
| "batch_loop clk start interval threshold t (x # q) messages =
     (if ge_num (clk t - start) interval \<or> ge_num (real (length messages)) threshold
      then (messages, x # q, Suc t)
      else batch_loop clk start interval threshold (Suc t) q (messages @ [x]))"

definition get_messages_in_batch ::
  "clock \<Rightarrow> nat \<Rightarrow> 'a list \<Rightarrow> number \<Rightarrow> number \<Rightarrow> 'a list \<times> 'a list \<times> nat" where
  "get_messages_in_batch clk t msg_queue interval threshold =
     batch_loop clk (clk t) interval threshold (Suc t) msg_queue []"

section \<open>Python values\<close>

text \<open>
  Messages arrive through queues as arbitrary Python objects, and the code takes them apart
  with tuple unpacking, subscripts, \<open>in\<close> and attribute access, each of which raises on an
  object of the wrong shape. \<open>pyval\<close> is the part of Python's universe the code can meet
  here: \<open>None\<close>, integers, strings, members of the enum \<open>MessageType\<close>, tuples (a list
  behaves as a tuple in every operation used) and dicts with string keys, kept in insertion
  order.
\<close>

datatype MessageType = TASK_INFO | RESOURCE_INFO | WORKFLOW_INFO

fun enum_value :: "MessageType \<Rightarrow> int" where
  "enum_value TASK_INFO = 0"
| "enum_value RESOURCE_INFO = 1"
| "enum_value WORKFLOW_INFO = 2"

datatype pyval =
    PNone
  | PInt int
  | PStr string
  | PEnum MessageType
  | PTuple "pyval list"
  | PDict "(string \<times> pyval) list"

datatype error = TypeError | ValueError | KeyError | IndexError | AttributeError

text \<open>What iterating over a value yields; \<open>None\<close> when the value is not iterable.\<close>

fun iter_items :: "pyval \<Rightarrow> pyval list option" where
  "iter_items (PTuple xs) = Some xs"
| "iter_items (PStr s) = Some (map (\<lambda>c. PStr [c]) s)"
| "iter_items (PDict kvs) = Some (map (\<lambda>kv. PStr (fst kv)) kvs)"
| "iter_items PNone = None"
| "iter_items (PInt i) = None"
| "iter_items (PEnum e) = None"

text \<open>
  \<open>a, b = v\<close>: \<open>TypeError\<close> when \<open>v\<close> is not iterable, \<open>ValueError\<close> when it does not
  yield exactly two items.
\<close>

definition unpack2 :: "pyval \<Rightarrow> error + pyval \<times> pyval" where
  "unpack2 v =
     (case iter_items v of
        None \<Rightarrow> Inl TypeError
      | Some [a, b] \<Rightarrow> Inr (a, b)
      | Some _ \<Rightarrow> Inl ValueError)"

text \<open>\<open>v[-1]\<close>. The keys of a dict are strings here, so \<open>-1\<close> is never one of them.\<close>

fun subscript_last :: "pyval \<Rightarrow> error + pyval" where
  "subscript_last (PTuple xs) = (if xs = [] then Inl IndexError else Inr (last xs))"
| "subscript_last (PStr s) = (if s = [] then Inl IndexError else Inr (PStr [last s]))"
| "subscript_last (PDict kvs) = Inl KeyError"
| "subscript_last PNone = Inl TypeError"
| "subscript_last (PInt i) = Inl TypeError"
| "subscript_last (PEnum e) = Inl TypeError"

text \<open>\<open>v[k]\<close> for a string \<open>k\<close>.\<close>

fun getitem :: "pyval \<Rightarrow> string \<Rightarrow> error + pyval" where
  "getitem (PDict kvs) k = (case map_of kvs k of None \<Rightarrow> Inl KeyError | Some v \<Rightarrow> Inr v)"
| "getitem (PTuple xs) k = Inl TypeError"
| "getitem (PStr s) k = Inl TypeError"
| "getitem PNone k = Inl TypeError"
| "getitem (PInt i) k = Inl TypeError"
| "getitem (PEnum e) k = Inl TypeError"

definition is_substring :: "string \<Rightarrow> string \<Rightarrow> bool" where
  "is_substring p s = list_ex (\<lambda>i. take (length p) (drop i s) = p) [0..<Suc (length s)]"

text \<open>\<open>k in v\<close> for a string \<open>k\<close>.\<close>

fun contains :: "pyval \<Rightarrow> string \<Rightarrow> error + bool" where
  "contains (PDict kvs) k = Inr (k \<in> set (map fst kvs))"
| "contains (PTuple xs) k = Inr (PStr k \<in> set xs)"
| "contains (PStr s) k = Inr (is_substring k s)"
| "contains PNone k = Inl TypeError"
| "contains (PInt i) k = Inl TypeError"
| "contains (PEnum e) k = Inl TypeError"

text \<open>\<open>v.value\<close>: only an enum member has the attribute.\<close>

fun attr_value :: "pyval \<Rightarrow> error + int" where
  "attr_value (PEnum e) = Inr (enum_value e)"
| "attr_value PNone = Inl AttributeError"
| "attr_value (PInt i) = Inl AttributeError"
| "attr_value (PStr s) = Inl AttributeError"
| "attr_value (PTuple xs) = Inl AttributeError"
| "attr_value (PDict kvs) = Inl AttributeError"

section \<open>The database\<close>

text \<open>
  The tables and their columns, as the classes \<open>Workflow\<close>, \<open>Status\<close>, \<open>Task\<close> and
  \<open>Resource\<close> declare them.
\<close>

definition WORKFLOW :: string where "WORKFLOW = ''workflow''"
definition TASK :: string where "TASK = ''task''"
definition STATUS :: string where "STATUS = ''status''"
definition RESOURCE :: string where "RESOURCE = ''resource''"

definition tables :: "string \<Rightarrow> string list option" where
  "tables name =
     (if name = WORKFLOW then
        Some [''run_id'', ''workflow_name'', ''workflow_version'', ''time_began'',
              ''time_completed'', ''host'', ''user'', ''rundir'', ''tasks_failed_count'',
              ''tasks_completed_count'']
      else if name = STATUS then
        Some [''task_id'', ''task_status_name'', ''timestamp'', ''run_id'']
      else if name = TASK then
        Some [''task_id'', ''run_id'', ''task_executor'', ''task_func_name'',
              ''task_time_submitted'', ''task_time_returned'', ''task_memoize'',
              ''task_inputs'', ''task_outputs'', ''task_stdin'', ''task_stdout'']
      else if name = RESOURCE then
        Some [''task_id'', ''timestamp'', ''run_id'', ''psutil_process_pid'',
              ''psutil_process_cpu_percent'', ''psutil_process_memory_percent'',
              ''psutil_process_children_count'', ''psutil_process_time_user'',
              ''psutil_process_time_system'', ''psutil_process_memory_virtual'',
              ''psutil_process_memory_resident'', ''psutil_process_disk_read'',
              ''psutil_process_disk_write'', ''psutil_process_status'']
      else None)"

text \<open>
  The SQLAlchemy session is outside the program. What the program does to it is recorded:
  \<open>calls\<close> holds every call of \<open>Database.insert\<close> and \<open>Database.update\<close> in the order
  they are made, with the arguments as passed, and \<open>session\<close> holds the bulk operations
  that reached the session and were committed, with the mappings built for them. A bulk
  operation the database itself rejects is not modelled.
\<close>

type_synonym mapping = "(string \<times> pyval) list"

datatype db_call =
    Insert string "pyval list"
  | Update string "string list" "pyval list"

datatype bulk_op =
    BulkInsert string "mapping list"
  | BulkUpdate string "mapping list"

record database =
  calls :: "db_call list"
  session :: "bulk_op list"

text \<open>
  \<open>_generate_mappings\<close>: for every message a dict with one entry per column, read with
  \<open>msg[column]\<close>; the first failing lookup raises. \<open>columns\<close> is only looked at inside
  the loop over the messages.
\<close>

fun mapping_of :: "string list \<Rightarrow> pyval \<Rightarrow> error + mapping" where
  "mapping_of [] msg = Inr []"
| "mapping_of (column # columns) msg =
     (case getitem msg column of
        Inl e \<Rightarrow> Inl e
      | Inr v \<Rightarrow> (case mapping_of columns msg of
                   Inl e \<Rightarrow> Inl e
                 | Inr m \<Rightarrow> Inr ((column, v) # m)))"

fun generate_mappings :: "string list \<Rightarrow> pyval list \<Rightarrow> error + mapping list" where
  "generate_mappings columns [] = Inr []"
| "generate_mappings columns (msg # messages) =
     (case mapping_of columns msg of
        Inl e \<Rightarrow> Inl e
      | Inr m \<Rightarrow> (case generate_mappings columns messages of
                   Inl e \<Rightarrow> Inl e
                 | Inr ms \<Rightarrow> Inr (m # ms)))"

text \<open>
  \<open>Database.update\<close> and \<open>Database.insert\<close>, which \<open>_update\<close> and \<open>_insert\<close> of the
  manager only pass on to. A raise leaves the database as it was when the call failed: the
  call is on record, no bulk operation was added, and nothing committed earlier is undone.
\<close>

definition Database_update ::
  "string \<Rightarrow> string list \<Rightarrow> pyval list \<Rightarrow> database \<Rightarrow> error \<times> database + database" where
  "Database_update table columns messages db =
     (let db1 = db\<lparr>calls := calls db @ [Update table columns messages]\<rparr> in
      case tables table of
        None \<Rightarrow> Inl (KeyError, db1)
      | Some _ \<Rightarrow>
          (case generate_mappings columns messages of
             Inl e \<Rightarrow> Inl (e, db1)
           | Inr mappings \<Rightarrow> Inr (db1\<lparr>session := session db1 @ [BulkUpdate table mappings]\<rparr>)))"

definition Database_insert ::
  "string \<Rightarrow> pyval list \<Rightarrow> database \<Rightarrow> error \<times> database + database" where
  "Database_insert table messages db =
     (let db1 = db\<lparr>calls := calls db @ [Insert table messages]\<rparr> in
      case tables table of
        None \<Rightarrow> Inl (KeyError, db1)
      | Some columns \<Rightarrow>
          (case generate_mappings columns messages of
             Inl e \<Rightarrow> Inl (e, db1)
           | Inr mappings \<Rightarrow> Inr (db1\<lparr>session := session db1 @ [BulkInsert table mappings]\<rparr>)))"

section \<open>The database manager\<close>

text \<open>
  The fields of \<open>DatabaseManager\<close> that the threads share. \<open>kill_event\<close> is the
  \<open>threading.Event\<close> created by \<open>start\<close>.
\<close>

record manager =
  kill_event :: bool
  batching_interval :: number
  batching_threshold :: number
  pending_priority_queue :: "pyval list"
  pending_resource_queue :: "pyval list"
  db :: database

definition close :: "manager \<Rightarrow> manager" where
  "close m = m\<lparr>batching_interval := PosInf, batching_threshold := PosInf, kill_event := True\<rparr>"

subsection \<open>The forwarder\<close>

text \<open>
  \<open>_migrate_logs_to_internal\<close>, from the item that \<open>logs_queue.get(block=False)\<close>
  returned: the item is unpacked into \<open>x, addr\<close>, and \<open>addr\<close> is not used again. A raise
  ends the thread; the item has left its channel by then.
\<close>

definition migrate_item :: "string \<Rightarrow> pyval \<Rightarrow> manager \<Rightarrow> error + manager" where
  "migrate_item queue_tag item m =
     (case unpack2 item of
        Inl e \<Rightarrow> Inl e
      | Inr (x, addr) \<Rightarrow>
          if queue_tag = ''priority'' then
            (if x = PStr ''STOP'' then Inr (close m)
             else Inr (m\<lparr>pending_priority_queue := pending_priority_queue m @ [x]\<rparr>))
          else if queue_tag = ''resource'' then
            (case subscript_last x of
               Inl e \<Rightarrow> Inl e
             | Inr v \<Rightarrow> Inr (m\<lparr>pending_resource_queue := pending_resource_queue m @ [v]\<rparr>))
          else Inr m)"

subsection \<open>Classifying and routing a priority batch\<close>

text \<open>
  The \<open>for msg_type, msg in messages\<close> loop of \<open>start\<close>, with the three lists it fills
  in the order the source names them: \<open>update_messages\<close>, \<open>insert_messages\<close>,
  \<open>all_messages\<close>. Workflow messages are written to the database inside the loop. A
  raise leaves the loop with the database as it is; the three lists are locals and are
  lost.
\<close>

fun classify ::
  "pyval list \<Rightarrow> database \<Rightarrow> pyval list \<Rightarrow> pyval list \<Rightarrow> pyval list \<Rightarrow>
   error \<times> database + database \<times> pyval list \<times> pyval list \<times> pyval list" where
  "classify [] d update_messages insert_messages all_messages =
     Inr (d, update_messages, insert_messages, all_messages)"
| "classify (item # messages) d update_messages insert_messages all_messages =
     (case unpack2 item of
        Inl e \<Rightarrow> Inl (e, d)
      | Inr (msg_type, msg) \<Rightarrow>
          (case attr_value msg_type of
             Inl e \<Rightarrow> Inl (e, d)
           | Inr v \<Rightarrow>
               if v = enum_value WORKFLOW_INFO then
                 (case contains msg ''python_version'' of
                    Inl e \<Rightarrow> Inl (e, d)
                  | Inr is_start \<Rightarrow>
                      (case (if is_start then Database_insert WORKFLOW [msg] d
                             else Database_update WORKFLOW
                                    [''run_id'', ''tasks_failed_count'',
                                     ''tasks_completed_count'', ''time_completed''] [msg] d) of
                         Inl err \<Rightarrow> Inl err
                       | Inr d' \<Rightarrow>
                           classify messages d' update_messages insert_messages all_messages))
               else
                 (case getitem msg ''task_time_returned'' of
                    Inl e \<Rightarrow> Inl (e, d)
                  | Inr returned \<Rightarrow>
                      if returned \<noteq> PNone
                      then classify messages d (update_messages @ [msg]) insert_messages
                             (all_messages @ [msg])
                      else classify messages d update_messages (insert_messages @ [msg])
                             (all_messages @ [msg]))))"

text \<open>The four calls that follow the loop.\<close>

definition route_groups ::
  "pyval list \<Rightarrow> pyval list \<Rightarrow> pyval list \<Rightarrow> database \<Rightarrow> error \<times> database + database" where
  "route_groups update_messages insert_messages all_messages d =
     (case Database_update WORKFLOW [''run_id'', ''tasks_failed_count'', ''tasks_completed_count'']
             update_messages d of
        Inl err \<Rightarrow> Inl err
      | Inr d1 \<Rightarrow>
          (case (if insert_messages \<noteq> [] then Database_insert TASK insert_messages d1 else Inr d1) of
             Inl err \<Rightarrow> Inl err
           | Inr d2 \<Rightarrow>
               (case (if update_messages \<noteq> []
                      then Database_update TASK [''task_time_returned'', ''run_id'', ''task_id'']
                             update_messages d2
                      else Inr d2) of
                  Inl err \<Rightarrow> Inl err
                | Inr d3 \<Rightarrow> Database_insert STATUS all_messages d3)))"

definition route_priority :: "pyval list \<Rightarrow> database \<Rightarrow> error \<times> database + database" where
  "route_priority messages d =
     (case classify messages d [] [] [] of
        Inl err \<Rightarrow> Inl err
      | Inr (d', update_messages, insert_messages, all_messages) \<Rightarrow>
          route_groups update_messages insert_messages all_messages d')"

subsection \<open>One cycle of the coordinator, run without interruption\<close>

text \<open>
  The body of the \<open>while\<close> loop of \<open>start\<close> when no other thread runs in between: a batch
  from the priority buffer is classified and routed, then a batch from the resource buffer
  is inserted. The result carries the index of the next clock reading; an exception leaves
  \<open>start\<close> with the manager as it is at that point.
\<close>

definition cycle :: "clock \<Rightarrow> nat \<Rightarrow> manager \<Rightarrow> error \<times> manager \<times> nat + manager \<times> nat" where
  "cycle clk t m =
     (case get_messages_in_batch clk t (pending_priority_queue m)
             (batching_interval m) (batching_threshold m) of
        (messages, q, t1) \<Rightarrow>
          (case route_priority messages (db m) of
             Inl (e, d) \<Rightarrow> Inl (e, m\<lparr>pending_priority_queue := q, db := d\<rparr>, t1)
           | Inr d \<Rightarrow>
               (case get_messages_in_batch clk t1 (pending_resource_queue m)
                       (batching_interval m) (batching_threshold m) of
                  (rmessages, rq, t2) \<Rightarrow>
                    (case Database_insert RESOURCE rmessages d of
                       Inl (e, d') \<Rightarrow>
                         Inl (e, m\<lparr>pending_priority_queue := q, pending_resource_queue := rq,
                                  db := d'\<rparr>, t2)
                     | Inr d' \<Rightarrow>
                         Inr (m\<lparr>pending_priority_queue := q, pending_resource_queue := rq,
                                db := d'\<rparr>, t2)))))"

section \<open>The three threads\<close>

text \<open>
  \<open>start\<close> runs the coordinator loop in the calling thread and one forwarder
  (\<open>_migrate_logs_to_internal\<close>) in a thread per ingress queue. The threads share the
  manager and the two ingress queues, so the program is modelled as a transition system:
  a state holds the shared objects and the place each thread has reached, and a step lets
  one thread perform its next action. An action contains at most one operation on a shared
  queue; what a thread does to its own locals and, for the coordinator, to the database
  (which only the coordinator touches) is part of the same step. Three groups of reads are
  each taken as one step, which favours the code: the five reads of the coordinator's loop
  condition, the two assignments and the event of \<open>close\<close>, and a forwarder's loop test
  together with the \<open>get\<close> that follows it (only that forwarder takes items from its
  queue, so a non-empty queue stays non-empty until the \<open>get\<close>).
\<close>

text \<open>
  A forwarder is at its loop test (\<open>Polling\<close>), holds the item that \<open>get\<close> returned and
  has still to unpack and pass it on (\<open>Holding\<close>), has left its loop (\<open>Finished\<close>) or
  was ended by an exception (\<open>Died\<close>).
\<close>

datatype forwarder = Polling | Holding pyval | Finished | Died error

text \<open>
  The coordinator is at the test of its \<open>while\<close> loop (\<open>AtTest\<close>); about to call
  \<open>_get_messages_in_batch\<close> on a pending buffer (\<open>BeginPriority\<close>, \<open>BeginResource\<close>);
  inside that call, with the start time, the interval and the threshold it was called
  with and the messages collected so far (\<open>PollPriority\<close>, \<open>PollResource\<close>); about to
  classify and route the priority batch (\<open>RoutePriority\<close>) or to insert the resource
  batch (\<open>InsertResource\<close>); out of the loop (\<open>Stopped\<close>); or ended by an exception
  (\<open>Crashed\<close>).
\<close>

datatype coordinator =
    AtTest
  | BeginPriority
  | PollPriority real number number "pyval list"
  | RoutePriority "pyval list"
  | BeginResource
  | PollResource real number number "pyval list"
  | InsertResource "pyval list"
  | Stopped
  | Crashed error

record system =
  self :: manager
  priority_queue :: "pyval list"
  resource_queue :: "pyval list"
  priority_thread :: forwarder
  resource_thread :: forwarder
  main_thread :: coordinator
  time_reads :: nat

text \<open>The condition of the \<open>while\<close> loop of \<open>start\<close>; \<open>qsize() != 0\<close> is non-emptiness.\<close>

definition start_continues :: "system \<Rightarrow> bool" where
  "start_continues s =
     (\<not> kill_event (self s) \<or>
      pending_priority_queue (self s) \<noteq> [] \<or> pending_resource_queue (self s) \<noteq> [] \<or>
      priority_queue s \<noteq> [] \<or> resource_queue s \<noteq> [])"

text \<open>
  One action of a forwarder on its queue: the loop test
  \<open>not kill_event.is_set() or logs_queue.qsize() != 0\<close> followed by the non-blocking
  \<open>get\<close> (an empty queue sends it back to the test), or the handling of the item held.
\<close>

definition forwarder_step ::
  "string \<Rightarrow> forwarder \<Rightarrow> pyval list \<Rightarrow> manager \<Rightarrow> forwarder \<times> pyval list \<times> manager" where
  "forwarder_step queue_tag th logs_queue m =
     (case th of
        Polling \<Rightarrow>
          if \<not> kill_event m \<or> logs_queue \<noteq> [] then
            (case logs_queue of
               [] \<Rightarrow> (Polling, [], m)
             | item # rest \<Rightarrow> (Holding item, rest, m))
          else (Finished, logs_queue, m)
      | Holding item \<Rightarrow>
          (case migrate_item queue_tag item m of
             Inl e \<Rightarrow> (Died e, logs_queue, m)
           | Inr m' \<Rightarrow> (Polling, logs_queue, m'))
      | Finished \<Rightarrow> (Finished, logs_queue, m)
      | Died e \<Rightarrow> (Died e, logs_queue, m))"

text \<open>
  One iteration of the loop of \<open>_get_messages_in_batch\<close> on a pending buffer: the batch
  is complete (\<open>Inl\<close>) or has grown by the head of the buffer (\<open>Inr\<close>, with the rest of
  the buffer).
\<close>

definition poll ::
  "clock \<Rightarrow> nat \<Rightarrow> real \<Rightarrow> number \<Rightarrow> number \<Rightarrow> pyval list \<Rightarrow> pyval list \<Rightarrow>
   pyval list + pyval list \<times> pyval list" where
  "poll clk t start interval threshold msg_queue messages =
     (if ge_num (clk t - start) interval \<or> ge_num (real (length messages)) threshold
      then Inl messages
      else (case msg_queue of
              [] \<Rightarrow> Inl messages
            | x # q \<Rightarrow> Inr (messages @ [x], q)))"

text \<open>One action of the coordinator.\<close>

definition coordinator_step :: "clock \<Rightarrow> system \<Rightarrow> system" where
  "coordinator_step clk s =
     (case main_thread s of
        AtTest \<Rightarrow>
          s\<lparr>main_thread := (if start_continues s then BeginPriority else Stopped)\<rparr>
      | BeginPriority \<Rightarrow>
          s\<lparr>main_thread := PollPriority (clk (time_reads s)) (batching_interval (self s))
                             (batching_threshold (self s)) [],
            time_reads := Suc (time_reads s)\<rparr>
      | PollPriority start interval threshold messages \<Rightarrow>
          (case poll clk (time_reads s) start interval threshold
                  (pending_priority_queue (self s)) messages of
             Inl batch \<Rightarrow>
               s\<lparr>main_thread := RoutePriority batch, time_reads := Suc (time_reads s)\<rparr>
           | Inr (messages', q) \<Rightarrow>
               s\<lparr>self := (self s)\<lparr>pending_priority_queue := q\<rparr>,
                 main_thread := PollPriority start interval threshold messages',
                 time_reads := Suc (time_reads s)\<rparr>)
      | RoutePriority messages \<Rightarrow>
          (case route_priority messages (db (self s)) of
             Inl (e, d) \<Rightarrow> s\<lparr>self := (self s)\<lparr>db := d\<rparr>, main_thread := Crashed e\<rparr>
           | Inr d \<Rightarrow> s\<lparr>self := (self s)\<lparr>db := d\<rparr>, main_thread := BeginResource\<rparr>)
      | BeginResource \<Rightarrow>
          s\<lparr>main_thread := PollResource (clk (time_reads s)) (batching_interval (self s))
                             (batching_threshold (self s)) [],
            time_reads := Suc (time_reads s)\<rparr>
      | PollResource start interval threshold messages \<Rightarrow>
          (case poll clk (time_reads s) start interval threshold
                  (pending_resource_queue (self s)) messages of
             Inl batch \<Rightarrow>
               s\<lparr>main_thread := InsertResource batch, time_reads := Suc (time_reads s)\<rparr>
           | Inr (messages', q) \<Rightarrow>
               s\<lparr>self := (self s)\<lparr>pending_resource_queue := q\<rparr>,
                 main_thread := PollResource start interval threshold messages',
                 time_reads := Suc (time_reads s)\<rparr>)
      | InsertResource messages \<Rightarrow>
          (case Database_insert RESOURCE messages (db (self s)) of
             Inl (e, d) \<Rightarrow> s\<lparr>self := (self s)\<lparr>db := d\<rparr>, main_thread := Crashed e\<rparr>
           | Inr d \<Rightarrow> s\<lparr>self := (self s)\<lparr>db := d\<rparr>, main_thread := AtTest\<rparr>)
      | Stopped \<Rightarrow> s
      | Crashed e \<Rightarrow> s)"

text \<open>A schedule names the thread that acts at each step.\<close>

datatype thread = PriorityForwarder | ResourceForwarder | Coordinator

fun step :: "clock \<Rightarrow> thread \<Rightarrow> system \<Rightarrow> system" where
  "step clk PriorityForwarder s =
     (case forwarder_step ''priority'' (priority_thread s) (priority_queue s) (self s) of
        (th, q, m) \<Rightarrow> s\<lparr>priority_thread := th, priority_queue := q, self := m\<rparr>)"
| "step clk ResourceForwarder s =
     (case forwarder_step ''resource'' (resource_thread s) (resource_queue s) (self s) of
        (th, q, m) \<Rightarrow> s\<lparr>resource_thread := th, resource_queue := q, self := m\<rparr>)"
| "step clk Coordinator s = coordinator_step clk s"

fun run :: "clock \<Rightarrow> thread list \<Rightarrow> system \<Rightarrow> system" where
  "run clk [] s = s"
| "run clk (th # schedule) s = run clk schedule (step clk th s)"

section \<open>Notions used to state the properties\<close>

text \<open>
  A manager as \<open>__init__\<close> (with its default arguments) and the first lines of \<open>start\<close>
  leave it, on a database to which nothing has been done yet.
\<close>

definition new_database :: database where
  "new_database = \<lparr>calls = [], session = []\<rparr>"

definition new_manager :: manager where
  "new_manager =
     \<lparr>kill_event = False, batching_interval = Num 1, batching_threshold = Num 99999,
      pending_priority_queue = [], pending_resource_queue = [], db = new_database\<rparr>"

text \<open>
  The system as \<open>start\<close> sets it up on a new manager, with the items that the producers
  have put on the two ingress queues.
\<close>

definition start_threads :: "pyval list \<Rightarrow> pyval list \<Rightarrow> system" where
  "start_threads priority_msgs resource_msgs =
     \<lparr>self = new_manager, priority_queue = priority_msgs, resource_queue = resource_msgs,
      priority_thread = Polling, resource_thread = Polling, main_thread = AtTest,
      time_reads = 0\<rparr>"

text \<open>
  The database of an outcome, whether the call chain returned or raised, and whether it
  returned.
\<close>

fun database_of :: "error \<times> database + database \<Rightarrow> database" where
  "database_of (Inl (e, d)) = d"
| "database_of (Inr d) = d"

fun returned_ok :: "'e + 'a \<Rightarrow> bool" where
  "returned_ok (Inl e) = False"
| "returned_ok (Inr v) = True"

text \<open>
  An item of a priority batch that the loop can take apart is a pair of an object with a
  \<open>value\<close> attribute and a payload. The task-class items are those whose value differs
  from that of \<open>WORKFLOW_INFO\<close>; a payload has returned when its \<open>task_time_returned\<close>
  is there and is not \<open>None\<close>.
\<close>

definition as_message :: "pyval \<Rightarrow> (int \<times> pyval) option" where
  "as_message item =
     (case unpack2 item of
        Inl e \<Rightarrow> None
      | Inr (msg_type, msg) \<Rightarrow>
          (case attr_value msg_type of Inl e \<Rightarrow> None | Inr v \<Rightarrow> Some (v, msg)))"

fun task_payloads :: "pyval list \<Rightarrow> pyval list" where
  "task_payloads [] = []"
| "task_payloads (item # messages) =
     (case as_message item of
        None \<Rightarrow> task_payloads messages
      | Some (v, msg) \<Rightarrow>
          if v = enum_value WORKFLOW_INFO then task_payloads messages
          else msg # task_payloads messages)"

definition has_returned :: "pyval \<Rightarrow> bool" where
  "has_returned msg =
     (case getitem msg ''task_time_returned'' of Inl e \<Rightarrow> False | Inr r \<Rightarrow> r \<noteq> PNone)"

text \<open>The call that the loop makes for each workflow item of a batch.\<close>

fun workflow_calls :: "pyval list \<Rightarrow> db_call list" where
  "workflow_calls [] = []"
| "workflow_calls (item # messages) =
     (case as_message item of
        None \<Rightarrow> workflow_calls messages
      | Some (v, msg) \<Rightarrow>
          if v = enum_value WORKFLOW_INFO then
            (if contains msg ''python_version'' = Inr True then Insert WORKFLOW [msg]
             else Update WORKFLOW
                    [''run_id'', ''tasks_failed_count'', ''tasks_completed_count'',
                     ''time_completed''] [msg])
            # workflow_calls messages
          else workflow_calls messages)"

text \<open>Messages for concrete runs.\<close>

definition task_launched :: pyval where
  "task_launched =
     PDict [(''task_id'', PInt 1), (''run_id'', PStr ''r1''), (''task_executor'', PStr ''local''),
            (''task_func_name'', PStr ''f''), (''task_time_submitted'', PStr ''10:00:00''),
            (''task_time_returned'', PNone), (''task_memoize'', PStr ''False''),
            (''task_inputs'', PNone), (''task_outputs'', PNone), (''task_stdin'', PNone),
            (''task_stdout'', PNone), (''task_status_name'', PStr ''launched''),
            (''timestamp'', PStr ''10:00:00''), (''tasks_failed_count'', PInt 0),
            (''tasks_completed_count'', PInt 0)]"

definition task_done :: pyval where
  "task_done =
     PDict [(''task_id'', PInt 1), (''run_id'', PStr ''r1''), (''task_executor'', PStr ''local''),
            (''task_func_name'', PStr ''f''), (''task_time_submitted'', PStr ''10:00:00''),
            (''task_time_returned'', PStr ''10:00:01''), (''task_memoize'', PStr ''False''),
            (''task_inputs'', PNone), (''task_outputs'', PNone), (''task_stdin'', PNone),
            (''task_stdout'', PNone), (''task_status_name'', PStr ''done''),
            (''timestamp'', PStr ''10:00:01''), (''tasks_failed_count'', PInt 0),
            (''tasks_completed_count'', PInt 1)]"

definition workflow_end :: pyval where
  "workflow_end =
     PDict [(''run_id'', PStr ''r1''), (''tasks_failed_count'', PInt 0),
            (''tasks_completed_count'', PInt 1), (''time_completed'', PStr ''10:00:02'')]"


definition sample :: pyval where
  "sample =
     PDict [(''task_id'', PInt 1), (''timestamp'', PStr ''10:00:00''), (''run_id'', PStr ''r1''),
            (''psutil_process_pid'', PInt 4242), (''psutil_process_cpu_percent'', PInt 3),
            (''psutil_process_memory_percent'', PInt 1),
            (''psutil_process_children_count'', PInt 0),
            (''psutil_process_time_user'', PInt 2), (''psutil_process_time_system'', PInt 1),
            (''psutil_process_memory_virtual'', PInt 1000),
            (''psutil_process_memory_resident'', PInt 500),
            (''psutil_process_disk_read'', PInt 0), (''psutil_process_disk_write'', PInt 0),
            (''psutil_process_status'', PStr ''running'')]"

text \<open>
  A manager with three priority messages and one resource sample waiting in its pending
  buffers.
\<close>

definition busy_manager :: manager where
  "busy_manager =
     new_manager\<lparr>pending_priority_queue :=
                   [PTuple [PEnum WORKFLOW_INFO, workflow_end],
                    PTuple [PEnum TASK_INFO, task_launched],
                    PTuple [PEnum TASK_INFO, task_done]],
                 pending_resource_queue := [sample]\<rparr>"

text \<open>
  The calls of one cycle in the order the source makes them, from the priority batch and
  the resource batch of the cycle: the per-message workflow calls of the loop, the update
  of the workflow counters, the task inserts and the task updates (each only when its
  group is not empty), the status inserts, and the resource inserts.
\<close>

definition counter_columns :: "string list" where
  "counter_columns = [''run_id'', ''tasks_failed_count'', ''tasks_completed_count'']"

definition task_update_columns :: "string list" where
  "task_update_columns = [''task_time_returned'', ''run_id'', ''task_id'']"

definition group_calls :: "pyval list \<Rightarrow> pyval list \<Rightarrow> pyval list \<Rightarrow> db_call list" where
  "group_calls update_messages insert_messages all_messages =
     [Update WORKFLOW counter_columns update_messages] @
     (if insert_messages \<noteq> [] then [Insert TASK insert_messages] else []) @
     (if update_messages \<noteq> [] then [Update TASK task_update_columns update_messages] else []) @
     [Insert STATUS all_messages]"

definition cycle_calls :: "pyval list \<Rightarrow> pyval list \<Rightarrow> db_call list" where
  "cycle_calls messages rmessages =
     workflow_calls messages @
     group_calls (filter has_returned (task_payloads messages))
       (filter (\<lambda>msg. \<not> has_returned msg) (task_payloads messages))
       (task_payloads messages) @
     [Insert RESOURCE rmessages]"

text \<open>
  The fields that the code reads from the payload of a message of a priority batch, by
  the kind the message declares and the branch it takes: the columns of the workflow
  table for a workflow start, four columns for a workflow end; for a task-class message
  \<open>task_time_returned\<close>, the columns of the status table, and either the columns of the
  task table (not returned) or those of the two updates (returned).
\<close>

definition columns_of :: "string \<Rightarrow> string list" where
  "columns_of table = (case tables table of None \<Rightarrow> [] | Some columns \<Rightarrow> columns)"

definition expected_fields :: "int \<Rightarrow> pyval \<Rightarrow> string list" where
  "expected_fields v msg =
     (if v = enum_value WORKFLOW_INFO then
        (if contains msg ''python_version'' = Inr True then columns_of WORKFLOW
         else [''run_id'', ''tasks_failed_count'', ''tasks_completed_count'',
               ''time_completed''])
      else
        ''task_time_returned'' # columns_of STATUS @
        (if has_returned msg then counter_columns @ task_update_columns
         else columns_of TASK))"

definition outcome_of_cycle :: "error \<times> manager \<times> nat + manager \<times> nat \<Rightarrow> manager" where
  "outcome_of_cycle r = (case r of Inl (e, m, t) \<Rightarrow> m | Inr (m, t) \<Rightarrow> m)"


text \<open>The two batches that a cycle started at clock reading \<open>t\<close> draws.\<close>

definition priority_batch :: "clock \<Rightarrow> nat \<Rightarrow> manager \<Rightarrow> pyval list" where
  "priority_batch clk t m =
     fst (get_messages_in_batch clk t (pending_priority_queue m)
            (batching_interval m) (batching_threshold m))"

definition resource_batch :: "clock \<Rightarrow> nat \<Rightarrow> manager \<Rightarrow> pyval list" where
  "resource_batch clk t m =
     fst (get_messages_in_batch clk
            (snd (snd (get_messages_in_batch clk t (pending_priority_queue m)
                         (batching_interval m) (batching_threshold m))))
            (pending_resource_queue m) (batching_interval m) (batching_threshold m))"

section \<open>Properties of the batch collector\<close>



lemma batch_loop_unbounded:
  "batch_loop clk start PosInf PosInf t q messages = (messages @ q, [], Suc (t + length q))"
  by (induction q arbitrary: t messages) auto


text \<open>
  C3 (degenerate batch policy), as the code has it. The policy that drains the buffer is
  the one \<open>close\<close> installs, an infinite threshold with an infinite time budget: the
  collector then returns everything in the buffer and leaves it empty. With a time budget
  of zero and a clock that has not gone backwards between the two readings, the test
  \<open>time.time() - start >= 0\<close> holds on the first iteration, so the collector returns the
  empty batch and leaves the buffer as it was, whatever the threshold is.
\<close>

theorem degenerate_batch_policy:
  "get_messages_in_batch clk t q PosInf PosInf = (q, [], t + length q + 2) \<and>
   (clk t \<le> clk (Suc t) \<longrightarrow>
      get_messages_in_batch clk t q (Num 0) threshold = ([], q, t + 2))"
  by (cases q) (simp_all add: get_messages_in_batch_def batch_loop_unbounded)

theorem degenerate_batch_policy_witness:
  "stopped_clock 0 \<le> stopped_clock (Suc 0) \<and>
   get_messages_in_batch stopped_clock 0 [sample, sample] (Num 0) PosInf =
     ([], [sample, sample], 2) \<and>
   get_messages_in_batch stopped_clock 0 [sample, sample] PosInf PosInf =
     ([sample, sample], [], 4)"
  using degenerate_batch_policy [of stopped_clock 0 "[sample, sample]" PosInf]
  by (simp add: stopped_clock_def)

text \<open>
  The claim as the specification words it fails: with a zero time budget and an infinite
  threshold, a buffer of two messages yields an empty batch.
\<close>

theorem zero_budget_counterexample:
  "fst (get_messages_in_batch steady_clock 0 [PStr ''m1'', PStr ''m2''] (Num 0) PosInf) \<noteq>
     [PStr ''m1'', PStr ''m2'']"
  by (simp add: get_messages_in_batch_def steady_clock_def)

section \<open>Properties of the forwarder\<close>

text \<open>
  C8 (resource forwarding), as the code has it. For an item \<open>(x, addr)\<close> of the resource
  channel the forwarder appends \<open>x[-1]\<close>, the last element of the first component, to the
  resource pending buffer, and nothing else; the address does not reach the buffer. When
  \<open>x[-1]\<close> raises, the forwarder raises and nothing is appended.
\<close>

theorem resource_forwarding:
  "migrate_item ''resource'' (PTuple [x, addr]) m =
     (case subscript_last x of
        Inl e \<Rightarrow> Inl e
      | Inr v \<Rightarrow> Inr (m\<lparr>pending_resource_queue := pending_resource_queue m @ [v]\<rparr>))"
  by (simp add: migrate_item_def unpack2_def)

text \<open>
  The claim as the specification words it fails: when the first component is the tuple
  \<open>(7, sample)\<close>, it is \<open>sample\<close> that is appended and not the component itself; and when
  the first component is the dict \<open>sample\<close> itself, the forwarder raises \<open>KeyError\<close>.
\<close>

theorem resource_forwarding_counterexample:
  "migrate_item ''resource'' (PTuple [PTuple [PInt 7, sample], PStr ''10.0.0.1'']) new_manager =
     Inr (new_manager\<lparr>pending_resource_queue := [sample]\<rparr>) \<and>
   migrate_item ''resource'' (PTuple [PTuple [PInt 7, sample], PStr ''10.0.0.1'']) new_manager \<noteq>
     Inr (new_manager\<lparr>pending_resource_queue := [PTuple [PInt 7, sample]]\<rparr>) \<and>
   migrate_item ''resource'' (PTuple [sample, PStr ''10.0.0.1'']) new_manager = Inl KeyError"
  by (simp add: migrate_item_def unpack2_def new_manager_def sample_def)

text \<open>
  C10 (items are pairs). An item that iterates as exactly two components \<open>x, addr\<close> is
  handled through \<open>x\<close> alone: on the priority channel \<open>x\<close> is compared with \<open>'STOP'\<close>
  and either shuts the manager down or is appended to the priority pending buffer, and the
  outcome on either channel does not depend on \<open>addr\<close>. An item that does not iterate as
  exactly two components makes the forwarder raise, on any channel; the bare string
  \<open>'STOP'\<close> is such an item.
\<close>

theorem forwarder_takes_pairs:
  "(iter_items item = Some [x, addr] \<longrightarrow>
      migrate_item ''priority'' item m =
        (if x = PStr ''STOP'' then Inr (close m)
         else Inr (m\<lparr>pending_priority_queue := pending_priority_queue m @ [x]\<rparr>)) \<and>
      migrate_item queue_tag item m = migrate_item queue_tag (PTuple [x, PNone]) m) \<and>
   ((\<forall>x addr. iter_items item \<noteq> Some [x, addr]) \<longrightarrow>
      migrate_item queue_tag item m = Inl TypeError \<or>
      migrate_item queue_tag item m = Inl ValueError) \<and>
   migrate_item queue_tag (PStr ''STOP'') m = Inl ValueError"
proof (intro conjI impI)
  assume "iter_items item = Some [x, addr]"
  then have u: "unpack2 item = Inr (x, addr)" by (simp add: unpack2_def)
  show "migrate_item ''priority'' item m =
        (if x = PStr ''STOP'' then Inr (close m)
         else Inr (m\<lparr>pending_priority_queue := pending_priority_queue m @ [x]\<rparr>))"
    by (simp add: migrate_item_def u)
  have v: "unpack2 (PTuple [x, PNone]) = Inr (x, PNone)" by (simp add: unpack2_def)
  show "migrate_item queue_tag item m = migrate_item queue_tag (PTuple [x, PNone]) m"
    by (simp add: migrate_item_def u v)
next
  assume a: "\<forall>x addr. iter_items item \<noteq> Some [x, addr]"
  have "unpack2 item = Inl TypeError \<or> unpack2 item = Inl ValueError"
    using a by (auto simp: unpack2_def split: option.splits list.splits)
  then show "migrate_item queue_tag item m = Inl TypeError \<or>
      migrate_item queue_tag item m = Inl ValueError"
    by (auto simp: migrate_item_def)
next
  show "migrate_item queue_tag (PStr ''STOP'') m = Inl ValueError"
    by (simp add: migrate_item_def unpack2_def)
qed

theorem forwarder_takes_pairs_witness:
  "iter_items (PTuple [PStr ''STOP'', PInt 0]) = Some [PStr ''STOP'', PInt 0] \<and>
   migrate_item ''priority'' (PTuple [PStr ''STOP'', PInt 0]) new_manager =
     Inr (close new_manager) \<and>
   (\<forall>x addr. iter_items sample \<noteq> Some [x, addr]) \<and>
   migrate_item ''priority'' sample new_manager = Inl ValueError"
proof -
  have a: "iter_items (PTuple [PStr ''STOP'', PInt 0]) = Some [PStr ''STOP'', PInt 0]"
    by simp
  have b: "\<forall>x addr. iter_items sample \<noteq> Some [x, addr]"
    by (simp add: sample_def)
  have c: "migrate_item ''priority'' sample new_manager \<noteq> Inl TypeError"
    by (simp add: migrate_item_def unpack2_def sample_def)
  from a b c
    forwarder_takes_pairs [of "PTuple [PStr ''STOP'', PInt 0]" "PStr ''STOP''" "PInt 0"
      new_manager "''priority''"]
    forwarder_takes_pairs [of sample _ _ new_manager "''priority''"]
  show ?thesis by simp
qed

section \<open>Properties of the database calls\<close>

lemma Database_insert_calls:
  "calls (database_of (Database_insert table messages d)) = calls d @ [Insert table messages]"
  by (simp add: Database_insert_def Let_def split: option.splits sum.splits)

lemma Database_update_calls:
  "calls (database_of (Database_update table columns messages d)) =
     calls d @ [Update table columns messages]"
  by (simp add: Database_update_def Let_def split: option.splits sum.splits)



lemma Database_insert_Inr:
  "Database_insert table messages d = Inr d' \<Longrightarrow>
   calls d' = calls d @ [Insert table messages] \<and> prefix (session d) (session d') \<and>
   (\<exists>ms. generate_mappings (columns_of table) messages = Inr ms)"
  by (auto simp: Database_insert_def Let_def columns_of_def split: option.splits sum.splits)

lemma Database_insert_Inl:
  "Database_insert table messages d = Inl (e, d') \<Longrightarrow>
   calls d' = calls d @ [Insert table messages] \<and> session d' = session d"
  by (auto simp: Database_insert_def Let_def split: option.splits sum.splits)

lemma Database_update_Inr:
  "Database_update table columns messages d = Inr d' \<Longrightarrow>
   calls d' = calls d @ [Update table columns messages] \<and> prefix (session d) (session d') \<and>
   (\<exists>ms. generate_mappings columns messages = Inr ms)"
  by (auto simp: Database_update_def Let_def split: option.splits sum.splits)

lemma Database_update_Inl:
  "Database_update table columns messages d = Inl (e, d') \<Longrightarrow>
   calls d' = calls d @ [Update table columns messages] \<and> session d' = session d"
  by (auto simp: Database_update_def Let_def split: option.splits sum.splits)

lemma mapping_of_fields:
  "mapping_of columns msg = Inr m \<Longrightarrow> c \<in> set columns \<Longrightarrow> \<exists>x. getitem msg c = Inr x"
  by (induction columns arbitrary: m) (auto split: sum.splits)

lemma generate_mappings_fields:
  "generate_mappings columns messages = Inr ms \<Longrightarrow> msg \<in> set messages \<Longrightarrow>
   c \<in> set columns \<Longrightarrow> \<exists>x. getitem msg c = Inr x"
  by (induction messages arbitrary: ms) (auto split: sum.splits dest: mapping_of_fields)

section \<open>Properties of the classification loop\<close>

text \<open>One iteration of the loop, by the kind of the item.\<close>

lemma as_message_SomeD:
  "as_message item = Some (v, msg) \<Longrightarrow>
   \<exists>msg_type. unpack2 item = Inr (msg_type, msg) \<and> attr_value msg_type = Inr v"
  unfolding as_message_def by (simp split: sum.splits prod.splits)

lemma as_message_NoneD:
  "as_message item = None \<Longrightarrow>
   (\<exists>e. unpack2 item = Inl e) \<or>
   (\<exists>msg_type msg e. unpack2 item = Inr (msg_type, msg) \<and> attr_value msg_type = Inl e)"
  unfolding as_message_def by (simp split: sum.splits prod.splits)

lemma classify_task_step:
  assumes "as_message item = Some (v, msg)" and "v \<noteq> enum_value WORKFLOW_INFO"
    and "getitem msg ''task_time_returned'' = Inr r"
  shows "classify (item # messages) d u i a =
     (if r \<noteq> PNone then classify messages d (u @ [msg]) i (a @ [msg])
      else classify messages d u (i @ [msg]) (a @ [msg]))"
proof -
  from as_message_SomeD [OF assms(1)] obtain msg_type where
    "unpack2 item = Inr (msg_type, msg)" "attr_value msg_type = Inr v" by blast
  with assms(2,3) show ?thesis by simp
qed

lemma classify_task_raises:
  assumes "as_message item = Some (v, msg)" and "v \<noteq> enum_value WORKFLOW_INFO"
    and "getitem msg ''task_time_returned'' = Inl e"
  shows "classify (item # messages) d u i a = Inl (e, d)"
proof -
  from as_message_SomeD [OF assms(1)] obtain msg_type where
    "unpack2 item = Inr (msg_type, msg)" "attr_value msg_type = Inr v" by blast
  with assms(2,3) show ?thesis by simp
qed

lemma classify_malformed:
  assumes "as_message item = None"
  shows "\<exists>e. \<forall>messages d u i a. classify (item # messages) d u i a = Inl (e, d)"
  using as_message_NoneD [OF assms] by (elim disjE exE conjE) simp_all

lemma classify_workflow_step:
  assumes "as_message item = Some (v, msg)" and "v = enum_value WORKFLOW_INFO"
  shows "classify (item # messages) d u i a =
     (case contains msg ''python_version'' of
        Inl e \<Rightarrow> Inl (e, d)
      | Inr is_start \<Rightarrow>
          (case (if is_start then Database_insert WORKFLOW [msg] d
                 else Database_update WORKFLOW
                        [''run_id'', ''tasks_failed_count'', ''tasks_completed_count'',
                         ''time_completed''] [msg] d) of
             Inl err \<Rightarrow> Inl err
           | Inr d' \<Rightarrow> classify messages d' u i a))"
proof -
  from as_message_SomeD [OF assms(1)] obtain msg_type where
    "unpack2 item = Inr (msg_type, msg)" "attr_value msg_type = Inr v" by blast
  with assms(2) show ?thesis by simp
qed

lemma classify_Cons_Inr:
  assumes "classify (item # messages) d u i a = Inr res"
  obtains v msg r where "as_message item = Some (v, msg)" "v \<noteq> enum_value WORKFLOW_INFO"
      "getitem msg ''task_time_returned'' = Inr r"
      "classify messages d (if r \<noteq> PNone then u @ [msg] else u)
         (if r \<noteq> PNone then i else i @ [msg]) (a @ [msg]) = Inr res"
  | v msg d1 where "as_message item = Some (v, msg)" "v = enum_value WORKFLOW_INFO"
      "calls d1 = calls d @ workflow_calls [item]" "prefix (session d) (session d1)"
      "\<forall>c\<in>set (expected_fields v msg). \<exists>x. getitem msg c = Inr x"
      "classify messages d1 u i a = Inr res"
proof (cases "as_message item")
  case None
  from classify_malformed [OF this] assms show ?thesis by auto
next
  case (Some p)
  obtain v msg where p: "p = (v, msg)" by (cases p)
  show ?thesis
  proof (cases "v = enum_value WORKFLOW_INFO")
    case False
    show ?thesis
    proof (cases "getitem msg ''task_time_returned''")
      case (Inl e)
      from classify_task_raises [OF Some [unfolded p] False Inl, of messages d u i a] assms
      show ?thesis by simp
    next
      case (Inr r)
      from classify_task_step [OF Some [unfolded p] False Inr, of messages d u i a] assms
      have "classify messages d (if r \<noteq> PNone then u @ [msg] else u)
         (if r \<noteq> PNone then i else i @ [msg]) (a @ [msg]) = Inr res"
        by (simp split: if_splits)
      with that(1) Some p False Inr show ?thesis by blast
    qed
  next
    case True
    note step = classify_workflow_step [OF Some [unfolded p] True, of messages d u i a]
    show ?thesis
    proof (cases "contains msg ''python_version''")
      case (Inl e)
      with step assms show ?thesis by simp
    next
      case (Inr is_start)
      show ?thesis
      proof (cases is_start)
        case True
        with step Inr assms have
          "(case Database_insert WORKFLOW [msg] d of Inl err \<Rightarrow> Inl err
            | Inr d' \<Rightarrow> classify messages d' u i a) = Inr res" by simp
        then obtain d1 where
          ins: "Database_insert WORKFLOW [msg] d = Inr d1" and
          rest: "classify messages d1 u i a = Inr res"
          by (cases "Database_insert WORKFLOW [msg] d") simp_all
        from Database_insert_Inr [OF ins] obtain ms where
          c: "calls d1 = calls d @ [Insert WORKFLOW [msg]]" and
          s: "prefix (session d) (session d1)" and
          g: "generate_mappings (columns_of WORKFLOW) [msg] = Inr ms" by blast
        have f: "\<forall>c\<in>set (expected_fields v msg). \<exists>x. getitem msg c = Inr x"
          using generate_mappings_fields [OF g] \<open>v = enum_value WORKFLOW_INFO\<close> Inr True
          by (simp add: expected_fields_def)
        have c': "calls d1 = calls d @ workflow_calls [item]"
          using c Some p \<open>v = enum_value WORKFLOW_INFO\<close> Inr True by simp
        from that(2) [OF Some [unfolded p] \<open>v = enum_value WORKFLOW_INFO\<close> c' s f rest]
        show ?thesis .
      next
        case False
        with step Inr assms have
          "(case Database_update WORKFLOW [''run_id'', ''tasks_failed_count'',
                  ''tasks_completed_count'', ''time_completed''] [msg] d of
              Inl err \<Rightarrow> Inl err
            | Inr d' \<Rightarrow> classify messages d' u i a) = Inr res" by simp
        then obtain d1 where
          upd: "Database_update WORKFLOW [''run_id'', ''tasks_failed_count'',
                  ''tasks_completed_count'', ''time_completed''] [msg] d = Inr d1" and
          rest: "classify messages d1 u i a = Inr res"
          by (cases "Database_update WORKFLOW [''run_id'', ''tasks_failed_count'',
                  ''tasks_completed_count'', ''time_completed''] [msg] d") simp_all
        from Database_update_Inr [OF upd] obtain ms where
          c: "calls d1 = calls d @ [Update WORKFLOW [''run_id'', ''tasks_failed_count'',
                  ''tasks_completed_count'', ''time_completed''] [msg]]" and
          s: "prefix (session d) (session d1)" and
          g: "generate_mappings [''run_id'', ''tasks_failed_count'',
                  ''tasks_completed_count'', ''time_completed''] [msg] = Inr ms" by blast
        have f: "\<forall>c\<in>set (expected_fields v msg). \<exists>x. getitem msg c = Inr x"
          using generate_mappings_fields [OF g] \<open>v = enum_value WORKFLOW_INFO\<close> Inr False
          by (simp add: expected_fields_def)
        have c': "calls d1 = calls d @ workflow_calls [item]"
          using c Some p \<open>v = enum_value WORKFLOW_INFO\<close> Inr False by simp
        from that(2) [OF Some [unfolded p] \<open>v = enum_value WORKFLOW_INFO\<close> c' s f rest]
        show ?thesis .
      qed
    qed
  qed
qed

lemma workflow_calls_Cons:
  "workflow_calls (item # messages) = workflow_calls [item] @ workflow_calls messages"
  by (simp split: option.splits prod.splits)


text \<open>
  What a completed loop has done: the three lists are the task-class payloads of the batch
  in their order of arrival, split by whether the task has returned; the database has
  received exactly the per-message workflow calls; and every item was well formed as far
  as the loop reads it.
\<close>

lemma classify_Inr:
  "classify messages d u i a = Inr (d', u', i', a') \<Longrightarrow>
   u' = u @ filter has_returned (task_payloads messages) \<and>
   i' = i @ filter (\<lambda>msg. \<not> has_returned msg) (task_payloads messages) \<and>
   a' = a @ task_payloads messages \<and>
   calls d' = calls d @ workflow_calls messages \<and>
   prefix (session d) (session d') \<and>
   (\<forall>item\<in>set messages. \<exists>v msg. as_message item = Some (v, msg) \<and>
      (if v = enum_value WORKFLOW_INFO
       then \<forall>c\<in>set (expected_fields v msg). \<exists>x. getitem msg c = Inr x
       else \<exists>r. getitem msg ''task_time_returned'' = Inr r))"
proof (induction messages arbitrary: d u i a)
  case Nil
  then show ?case by simp
next
  case (Cons item messages)
  from Cons.prems show ?case
  proof (cases rule: classify_Cons_Inr)
    case (1 v msg r)
    have hr: "has_returned msg = (r \<noteq> PNone)"
      using 1(3) by (simp add: has_returned_def)
    have tp: "task_payloads (item # messages) = msg # task_payloads messages"
      using 1(1,2) by simp
    have wc: "workflow_calls (item # messages) = workflow_calls messages"
      using 1(1,2) by simp
    note ih = Cons.IH [OF 1(4)]
    show ?thesis
    proof (intro conjI ballI)
      show "u' = u @ filter has_returned (task_payloads (item # messages))"
        using ih hr tp by simp
      show "i' = i @ filter (\<lambda>msg. \<not> has_returned msg) (task_payloads (item # messages))"
        using ih hr tp by simp
      show "a' = a @ task_payloads (item # messages)"
        using ih tp by simp
      show "calls d' = calls d @ workflow_calls (item # messages)"
        using ih wc by simp
      show "prefix (session d) (session d')"
        using ih by simp
    next
      fix it assume "it \<in> set (item # messages)"
      then consider "it = item" | "it \<in> set messages" by auto
      then show "\<exists>v msg. as_message it = Some (v, msg) \<and>
        (if v = enum_value WORKFLOW_INFO
         then \<forall>c\<in>set (expected_fields v msg). \<exists>x. getitem msg c = Inr x
         else \<exists>r. getitem msg ''task_time_returned'' = Inr r)"
      proof cases
        case 1
        with \<open>as_message item = Some (v, msg)\<close> \<open>v \<noteq> enum_value WORKFLOW_INFO\<close>
          \<open>getitem msg ''task_time_returned'' = Inr r\<close>
        show ?thesis by auto
      next
        case 2
        with ih show ?thesis by blast
      qed
    qed
  next
    case (2 v msg d1)
    have tp: "task_payloads (item # messages) = task_payloads messages"
      using 2(1,2) by simp
    note ih = Cons.IH [OF 2(6)]
    show ?thesis
    proof (intro conjI ballI)
      show "u' = u @ filter has_returned (task_payloads (item # messages))"
        using ih tp by simp
      show "i' = i @ filter (\<lambda>msg. \<not> has_returned msg) (task_payloads (item # messages))"
        using ih tp by simp
      show "a' = a @ task_payloads (item # messages)"
        using ih tp by simp
      show "calls d' = calls d @ workflow_calls (item # messages)"
        using ih 2(3) workflow_calls_Cons [of item messages] by simp
      show "prefix (session d) (session d')"
        using ih 2(4) prefix_order.trans by blast
    next
      fix it assume "it \<in> set (item # messages)"
      then consider "it = item" | "it \<in> set messages" by auto
      then show "\<exists>v msg. as_message it = Some (v, msg) \<and>
        (if v = enum_value WORKFLOW_INFO
         then \<forall>c\<in>set (expected_fields v msg). \<exists>x. getitem msg c = Inr x
         else \<exists>r. getitem msg ''task_time_returned'' = Inr r)"
      proof cases
        case 1
        with 2(1,2,5) show ?thesis by auto
      next
        case 2
        with ih show ?thesis by blast
      qed
    qed
  qed
qed


section \<open>Properties of the calls that follow the loop\<close>

lemma route_groups_alt:
  "route_groups u i a d =
     (case Database_update WORKFLOW counter_columns u d of
        Inl err \<Rightarrow> Inl err
      | Inr d1 \<Rightarrow>
          (case (if i \<noteq> [] then Database_insert TASK i d1 else Inr d1) of
             Inl err \<Rightarrow> Inl err
           | Inr d2 \<Rightarrow>
               (case (if u \<noteq> [] then Database_update TASK task_update_columns u d2
                      else Inr d2) of
                  Inl err \<Rightarrow> Inl err
                | Inr d3 \<Rightarrow> Database_insert STATUS a d3)))"
  unfolding route_groups_def counter_columns_def task_update_columns_def by (rule refl)

lemma route_groups_Inr:
  assumes "route_groups u i a d = Inr d'"
  shows "calls d' = calls d @ group_calls u i a"
    and "prefix (session d) (session d')"
    and "\<exists>ms. generate_mappings counter_columns u = Inr ms"
    and "i \<noteq> [] \<Longrightarrow> \<exists>ms. generate_mappings (columns_of TASK) i = Inr ms"
    and "u \<noteq> [] \<Longrightarrow> \<exists>ms. generate_mappings task_update_columns u = Inr ms"
    and "\<exists>ms. generate_mappings (columns_of STATUS) a = Inr ms"
proof -
  from assms obtain d1 where
    s1: "Database_update WORKFLOW counter_columns u d = Inr d1"
    by (auto simp: route_groups_alt split: sum.splits)
  with assms obtain d2 where
    s2: "(if i \<noteq> [] then Database_insert TASK i d1 else Inr d1) = Inr d2"
    by (auto simp: route_groups_alt split: sum.splits)
  with s1 assms obtain d3 where
    s3: "(if u \<noteq> [] then Database_update TASK task_update_columns u d2 else Inr d2) = Inr d3"
    by (auto simp: route_groups_alt split: sum.splits)
  with s1 s2 assms have
    s4: "Database_insert STATUS a d3 = Inr d'"
    by (auto simp: route_groups_alt split: sum.splits)
  note f1 = Database_update_Inr [OF s1]
  have f2: "calls d2 = calls d1 @ (if i \<noteq> [] then [Insert TASK i] else [])"
    "prefix (session d1) (session d2)"
    "i \<noteq> [] \<Longrightarrow> \<exists>ms. generate_mappings (columns_of TASK) i = Inr ms"
    using s2 Database_insert_Inr [of TASK i d1 d2] by (auto split: if_splits)
  have f3: "calls d3 = calls d2 @ (if u \<noteq> [] then [Update TASK task_update_columns u] else [])"
    "prefix (session d2) (session d3)"
    "u \<noteq> [] \<Longrightarrow> \<exists>ms. generate_mappings task_update_columns u = Inr ms"
    using s3 Database_update_Inr [of TASK task_update_columns u d2 d3]
    by (auto split: if_splits)
  note f4 = Database_insert_Inr [OF s4]
  show "calls d' = calls d @ group_calls u i a"
    using f1 f2(1) f3(1) f4 by (simp add: group_calls_def)
  show "prefix (session d) (session d')"
    using f1 f2(2) f3(2) f4 prefix_order.trans by blast
  show "\<exists>ms. generate_mappings counter_columns u = Inr ms" using f1 by blast
  show "i \<noteq> [] \<Longrightarrow> \<exists>ms. generate_mappings (columns_of TASK) i = Inr ms" by (rule f2(3))
  show "u \<noteq> [] \<Longrightarrow> \<exists>ms. generate_mappings task_update_columns u = Inr ms" by (rule f3(3))
  show "\<exists>ms. generate_mappings (columns_of STATUS) a = Inr ms" using f4 by blast
qed

lemma route_groups_first_call:
  "\<exists>later. calls (database_of (route_groups u i a d)) =
     calls d @ Update WORKFLOW counter_columns u # later"
proof (cases "Database_update WORKFLOW counter_columns u d")
  case (Inl err)
  obtain e d1 where "err = (e, d1)" by (cases err)
  with Inl Database_update_Inl [of WORKFLOW counter_columns u d e d1]
  show ?thesis by (simp add: route_groups_alt)
next
  case (Inr d1)
  note f1 = Database_update_Inr [OF Inr]
  define r2 where "r2 = (if i \<noteq> [] then Database_insert TASK i d1 else Inr d1)"
  have c2: "\<exists>k. calls (database_of r2) = calls d1 @ k"
    unfolding r2_def by (simp add: Database_insert_calls)
  show ?thesis
  proof (cases r2)
    case (Inl err)
    with Inr c2 f1 show ?thesis
      by (auto simp: route_groups_alt r2_def split: if_splits)
  next
    case r2: (Inr d2)
    define r3 where
      "r3 = (if u \<noteq> [] then Database_update TASK task_update_columns u d2 else Inr d2)"
    have c3: "\<exists>k. calls (database_of r3) = calls d2 @ k"
      unfolding r3_def by (simp add: Database_update_calls)
    show ?thesis
    proof (cases r3)
      case (Inl err)
      with Inr r2 c2 c3 f1 show ?thesis
        by (auto simp: route_groups_alt r2_def r3_def split: if_splits)
    next
      case r3: (Inr d3)
      have c4: "calls (database_of (Database_insert STATUS a d3)) = calls d3 @ [Insert STATUS a]"
        by (rule Database_insert_calls)
      have "route_groups u i a d = Database_insert STATUS a d3"
        using Inr r2 r3
        by (auto simp: route_groups_alt r2_def r3_def split: if_splits)
      with c2 c3 c4 f1 r2 r3 show ?thesis by auto
    qed
  qed
qed

section \<open>What has been committed when a call chain raises\<close>





section \<open>Properties of one cycle\<close>

lemma task_payloads_mem:
  "item \<in> set messages \<Longrightarrow> as_message item = Some (v, msg) \<Longrightarrow>
   v \<noteq> enum_value WORKFLOW_INFO \<Longrightarrow> msg \<in> set (task_payloads messages)"
  by (induction messages) (auto split: option.splits)

lemma as_message_TASK_INFO:
  "unpack2 item = Inr (PEnum TASK_INFO, msg) \<Longrightarrow> as_message item = Some (0, msg)"
  by (simp add: as_message_def)

text \<open>
  C4 (insert/update exclusivity). When the classification loop of a cycle completes, no
  message is in both the insert group and the update group; the two groups together hold
  every task-class message of the batch exactly as often as it occurs in the batch; and a
  \<open>TASK_INFO\<close> message of the batch is in the insert group and not in the update group
  when its \<open>task_time_returned\<close> is \<open>None\<close>, and in the update group and not in the
  insert group otherwise.
\<close>

theorem insert_update_exclusivity:
  assumes "classify messages d [] [] [] = Inr (d', update_messages, insert_messages, all_messages)"
  shows "set insert_messages \<inter> set update_messages = {} \<and>
         mset insert_messages + mset update_messages = mset (task_payloads messages) \<and>
         (\<forall>item\<in>set messages. \<forall>msg. unpack2 item = Inr (PEnum TASK_INFO, msg) \<longrightarrow>
            (if getitem msg ''task_time_returned'' = Inr PNone
             then msg \<in> set insert_messages \<and> msg \<notin> set update_messages
             else msg \<in> set update_messages \<and> msg \<notin> set insert_messages))"
proof -
  note c = classify_Inr [OF assms]
  from c have u: "update_messages = filter has_returned (task_payloads messages)"
    and i: "insert_messages = filter (\<lambda>msg. \<not> has_returned msg) (task_payloads messages)"
    by simp_all
  have disj: "set insert_messages \<inter> set update_messages = {}"
    unfolding u i by auto
  have "mset update_messages + mset insert_messages = mset (task_payloads messages)"
    unfolding u i by (simp only: mset_filter multiset_partition [symmetric])
  then have part: "mset insert_messages + mset update_messages = mset (task_payloads messages)"
    by (simp add: add.commute)
  have each: "\<forall>item\<in>set messages. \<forall>msg. unpack2 item = Inr (PEnum TASK_INFO, msg) \<longrightarrow>
            (if getitem msg ''task_time_returned'' = Inr PNone
             then msg \<in> set insert_messages \<and> msg \<notin> set update_messages
             else msg \<in> set update_messages \<and> msg \<notin> set insert_messages)"
  proof (intro ballI allI impI)
    fix item msg
    assume it: "item \<in> set messages" and un: "unpack2 item = Inr (PEnum TASK_INFO, msg)"
    have am: "as_message item = Some (0, msg)" by (rule as_message_TASK_INFO [OF un])
    have mem: "msg \<in> set (task_payloads messages)"
      by (rule task_payloads_mem [OF it am]) simp
    from c it am obtain r where r: "getitem msg ''task_time_returned'' = Inr r"
      by fastforce
    have hr: "has_returned msg = (r \<noteq> PNone)" using r by (simp add: has_returned_def)
    show "if getitem msg ''task_time_returned'' = Inr PNone
          then msg \<in> set insert_messages \<and> msg \<notin> set update_messages
          else msg \<in> set update_messages \<and> msg \<notin> set insert_messages"
      using mem hr r unfolding u i by auto
  qed
  from disj part each show ?thesis by blast
qed

theorem insert_update_exclusivity_witness:
  "classify [PTuple [PEnum TASK_INFO, task_launched], PTuple [PEnum TASK_INFO, task_done]]
     new_database [] [] [] =
     Inr (new_database, [task_done], [task_launched], [task_launched, task_done]) \<and>
   unpack2 (PTuple [PEnum TASK_INFO, task_launched]) = Inr (PEnum TASK_INFO, task_launched) \<and>
   getitem task_launched ''task_time_returned'' = Inr PNone \<and>
   unpack2 (PTuple [PEnum TASK_INFO, task_done]) = Inr (PEnum TASK_INFO, task_done) \<and>
   getitem task_done ''task_time_returned'' \<noteq> Inr PNone \<and>
   set [task_launched] \<inter> set [task_done] = {} \<and>
   task_launched \<in> set [task_launched] \<and> task_launched \<notin> set [task_done] \<and>
   task_done \<in> set [task_done] \<and> task_done \<notin> set [task_launched]"
proof -
  have c: "classify [PTuple [PEnum TASK_INFO, task_launched], PTuple [PEnum TASK_INFO, task_done]]
     new_database [] [] [] =
     Inr (new_database, [task_done], [task_launched], [task_launched, task_done])"
    by (simp add: unpack2_def task_launched_def task_done_def)
  from insert_update_exclusivity [OF c] c show ?thesis
    by (simp add: unpack2_def task_launched_def task_done_def)
qed

text \<open>
  C5 (the update of the workflow counters), as the code has it. In every cycle whose
  classification loop completes, the first call after the loop is an update of the
  workflow table with the columns \<open>run_id\<close>, \<open>tasks_failed_count\<close> and
  \<open>tasks_completed_count\<close>, made whether or not there is any message for it; the
  messages passed to it are the update group, that is the task-class messages of the batch
  whose \<open>task_time_returned\<close> is not \<open>None\<close>, in their order of arrival.
\<close>

theorem workflow_counters_update:
  assumes "classify messages d [] [] [] = Inr (d', update_messages, insert_messages, all_messages)"
  shows "update_messages = filter has_returned (task_payloads messages) \<and>
         (\<exists>later. calls (database_of (route_priority messages d)) =
            calls d @ workflow_calls messages @
            Update WORKFLOW [''run_id'', ''tasks_failed_count'', ''tasks_completed_count'']
              update_messages # later)"
proof -
  note c = classify_Inr [OF assms]
  have rp: "route_priority messages d =
      route_groups update_messages insert_messages all_messages d'"
    using assms by (simp add: route_priority_def)
  from route_groups_first_call [of update_messages insert_messages all_messages d']
  obtain later where "calls (database_of (route_priority messages d)) =
      calls d' @ Update WORKFLOW counter_columns update_messages # later"
    unfolding rp by blast
  with c have "calls (database_of (route_priority messages d)) =
      calls d @ workflow_calls messages @
      Update WORKFLOW [''run_id'', ''tasks_failed_count'', ''tasks_completed_count'']
        update_messages # later"
    by (simp add: counter_columns_def)
  with c show ?thesis by blast
qed

theorem workflow_counters_update_witness:
  "classify [PTuple [PEnum TASK_INFO, task_launched], PTuple [PEnum TASK_INFO, task_done]]
     new_database [] [] [] =
     Inr (new_database, [task_done], [task_launched], [task_launched, task_done]) \<and>
   [task_done] = filter has_returned (task_payloads
     [PTuple [PEnum TASK_INFO, task_launched], PTuple [PEnum TASK_INFO, task_done]]) \<and>
   take 1 (calls (database_of (route_priority
     [PTuple [PEnum TASK_INFO, task_launched], PTuple [PEnum TASK_INFO, task_done]]
     new_database))) =
     [Update WORKFLOW [''run_id'', ''tasks_failed_count'', ''tasks_completed_count'']
        [task_done]]"
proof -
  have c: "classify [PTuple [PEnum TASK_INFO, task_launched], PTuple [PEnum TASK_INFO, task_done]]
     new_database [] [] [] =
     Inr (new_database, [task_done], [task_launched], [task_launched, task_done])"
    by (simp add: unpack2_def task_launched_def task_done_def)
  have w: "workflow_calls
     [PTuple [PEnum TASK_INFO, task_launched], PTuple [PEnum TASK_INFO, task_done]] = []"
    by (simp add: as_message_def unpack2_def)
  from workflow_counters_update [OF c] c w show ?thesis
    by (auto simp: new_database_def)
qed

text \<open>
  The claim as the specification words it fails: in a cycle whose only task message has
  not returned, the update of the workflow counters is made with no message at all,
  although the cycle has a task message.
\<close>

theorem workflow_counters_counterexample:
  "returned_ok (route_priority [PTuple [PEnum TASK_INFO, task_launched]] new_database) \<and>
   calls (database_of (route_priority [PTuple [PEnum TASK_INFO, task_launched]] new_database)) =
     [Update WORKFLOW [''run_id'', ''tasks_failed_count'', ''tasks_completed_count''] [],
      Insert TASK [task_launched], Insert STATUS [task_launched]]"
  by (simp add: route_priority_def route_groups_def unpack2_def Database_insert_def
      Database_update_def tables_def WORKFLOW_def TASK_def STATUS_def task_launched_def
      new_database_def Let_def)

lemma route_priority_Inr:
  assumes "route_priority messages d = Inr d'"
  shows "calls d' = calls d @ workflow_calls messages @
           group_calls (filter has_returned (task_payloads messages))
             (filter (\<lambda>msg. \<not> has_returned msg) (task_payloads messages))
             (task_payloads messages)"
    and "\<forall>item\<in>set messages. \<exists>v msg. as_message item = Some (v, msg) \<and>
           (\<forall>c\<in>set (expected_fields v msg). \<exists>x. getitem msg c = Inr x)"
proof -
  from assms obtain d0 u i a where
    c: "classify messages d [] [] [] = Inr (d0, u, i, a)" and
    g: "route_groups u i a d0 = Inr d'"
    by (auto simp: route_priority_def split: sum.splits)
  note ci = classify_Inr [OF c]
  from ci have u: "u = filter has_returned (task_payloads messages)"
    and i: "i = filter (\<lambda>msg. \<not> has_returned msg) (task_payloads messages)"
    and a: "a = task_payloads messages" by simp_all
  note gi = route_groups_Inr [OF g]
  show "calls d' = calls d @ workflow_calls messages @
           group_calls (filter has_returned (task_payloads messages))
             (filter (\<lambda>msg. \<not> has_returned msg) (task_payloads messages))
             (task_payloads messages)"
    using gi(1) ci unfolding u i a by simp
  show "\<forall>item\<in>set messages. \<exists>v msg. as_message item = Some (v, msg) \<and>
           (\<forall>c\<in>set (expected_fields v msg). \<exists>x. getitem msg c = Inr x)"
  proof
    fix item assume it: "item \<in> set messages"
    with ci obtain v msg where am: "as_message item = Some (v, msg)" and
      k: "if v = enum_value WORKFLOW_INFO
          then \<forall>c\<in>set (expected_fields v msg). \<exists>x. getitem msg c = Inr x
          else \<exists>r. getitem msg ''task_time_returned'' = Inr r" by blast
    have "\<forall>c\<in>set (expected_fields v msg). \<exists>x. getitem msg c = Inr x"
    proof (cases "v = enum_value WORKFLOW_INFO")
      case True
      with k show ?thesis by simp
    next
      case False
      with k obtain r where r: "getitem msg ''task_time_returned'' = Inr r" by auto
      have mem: "msg \<in> set a"
        unfolding a by (rule task_payloads_mem [OF it am False])
      from gi(6) obtain ms4 where m4: "generate_mappings (columns_of STATUS) a = Inr ms4"
        by blast
      have st: "\<forall>c\<in>set (columns_of STATUS). \<exists>x. getitem msg c = Inr x"
        using generate_mappings_fields [OF m4 mem] by blast
      show ?thesis
      proof (cases "has_returned msg")
        case True
        with mem have mu: "msg \<in> set u" unfolding u a by simp
        then have "u \<noteq> []" by auto
        from gi(3) gi(5) [OF this] obtain ms1 ms3 where
          m1: "generate_mappings counter_columns u = Inr ms1" and
          m3: "generate_mappings task_update_columns u = Inr ms3" by blast
        have "\<forall>c\<in>set (counter_columns @ task_update_columns). \<exists>x. getitem msg c = Inr x"
          using generate_mappings_fields [OF m1 mu] generate_mappings_fields [OF m3 mu]
          by auto
        with st r True False show ?thesis by (auto simp: expected_fields_def)
      next
        case nr: False
        with mem have mi: "msg \<in> set i" unfolding i a by simp
        then have "i \<noteq> []" by auto
        from gi(4) [OF this] obtain ms2 where
          m2: "generate_mappings (columns_of TASK) i = Inr ms2" by blast
        have "\<forall>c\<in>set (columns_of TASK). \<exists>x. getitem msg c = Inr x"
          using generate_mappings_fields [OF m2 mi] by blast
        with st r nr False show ?thesis by (auto simp: expected_fields_def)
      qed
    qed
    with am show "\<exists>v msg. as_message item = Some (v, msg) \<and>
           (\<forall>c\<in>set (expected_fields v msg). \<exists>x. getitem msg c = Inr x)" by blast
  qed
qed



text \<open>
  C6 (ordering contract). In a cycle that completes, the calls are made in this order:
  the per-message workflow calls of the loop; the update of the workflow counters; the
  task inserts, when there is a message to insert; the task updates, when there is a
  message to update; the status inserts; and, from the resource batch, the resource
  inserts.
\<close>

theorem cycle_call_order:
  assumes "cycle clk t m = Inr (m', t')"
  shows "let messages = priority_batch clk t m;
             tasks = task_payloads messages;
             update_messages = filter has_returned tasks;
             insert_messages = filter (\<lambda>msg. \<not> has_returned msg) tasks
         in calls (db m') =
              calls (db m) @ workflow_calls messages @
              [Update WORKFLOW [''run_id'', ''tasks_failed_count'', ''tasks_completed_count'']
                 update_messages] @
              (if insert_messages \<noteq> [] then [Insert TASK insert_messages] else []) @
              (if update_messages \<noteq> []
               then [Update TASK [''task_time_returned'', ''run_id'', ''task_id'']
                       update_messages]
               else []) @
              [Insert STATUS tasks] @
              [Insert RESOURCE (resource_batch clk t m)]"
proof -
  obtain messages q t1 where g1: "get_messages_in_batch clk t (pending_priority_queue m)
      (batching_interval m) (batching_threshold m) = (messages, q, t1)"
    by (cases "get_messages_in_batch clk t (pending_priority_queue m)
      (batching_interval m) (batching_threshold m)") auto
  obtain rmessages rq t2 where g2: "get_messages_in_batch clk t1 (pending_resource_queue m)
      (batching_interval m) (batching_threshold m) = (rmessages, rq, t2)"
    by (cases "get_messages_in_batch clk t1 (pending_resource_queue m)
      (batching_interval m) (batching_threshold m)") auto
  have pb: "priority_batch clk t m = messages" by (simp add: priority_batch_def g1)
  have rb: "resource_batch clk t m = rmessages" by (simp add: resource_batch_def g1 g2)
  from assms obtain d1 where r1: "route_priority messages (db m) = Inr d1"
    by (auto simp: cycle_def g1 split: sum.splits)
  with assms have r2: "Database_insert RESOURCE rmessages d1 = Inr (db m')"
    by (auto simp: cycle_def g1 g2 split: sum.splits)
  from route_priority_Inr(1) [OF r1] Database_insert_Inr [OF r2]
  show ?thesis
    by (simp add: pb rb Let_def group_calls_def counter_columns_def task_update_columns_def)
qed

theorem cycle_call_order_witness:
  "cycle stopped_clock 0 busy_manager =
     Inr (outcome_of_cycle (cycle stopped_clock 0 busy_manager), 8) \<and>
   calls (db (outcome_of_cycle (cycle stopped_clock 0 busy_manager))) =
     [Update WORKFLOW
        [''run_id'', ''tasks_failed_count'', ''tasks_completed_count'', ''time_completed'']
        [workflow_end],
      Update WORKFLOW [''run_id'', ''tasks_failed_count'', ''tasks_completed_count'']
        [task_done],
      Insert TASK [task_launched],
      Update TASK [''task_time_returned'', ''run_id'', ''task_id''] [task_done],
      Insert STATUS [task_launched, task_done],
      Insert RESOURCE [sample]]"
proof -
  have ok: "returned_ok (cycle stopped_clock 0 busy_manager)"
    by (simp add: cycle_def get_messages_in_batch_def busy_manager_def new_manager_def
        new_database_def stopped_clock_def route_priority_def route_groups_def unpack2_def
        Database_insert_def Database_update_def tables_def WORKFLOW_def TASK_def STATUS_def
        RESOURCE_def task_launched_def task_done_def workflow_end_def sample_def Let_def)
  have t: "snd (case cycle stopped_clock 0 busy_manager of Inr p \<Rightarrow> p) = 8"
    by (simp add: cycle_def get_messages_in_batch_def busy_manager_def new_manager_def
        new_database_def stopped_clock_def route_priority_def route_groups_def unpack2_def
        Database_insert_def Database_update_def tables_def WORKFLOW_def TASK_def STATUS_def
        RESOURCE_def task_launched_def task_done_def workflow_end_def sample_def Let_def)
  from ok t obtain m' where c: "cycle stopped_clock 0 busy_manager = Inr (m', 8)"
    by (cases "cycle stopped_clock 0 busy_manager") auto
  have pb: "priority_batch stopped_clock 0 busy_manager =
      [PTuple [PEnum WORKFLOW_INFO, workflow_end], PTuple [PEnum TASK_INFO, task_launched],
       PTuple [PEnum TASK_INFO, task_done]]"
    by (simp add: priority_batch_def get_messages_in_batch_def busy_manager_def
        new_manager_def stopped_clock_def)
  have rb: "resource_batch stopped_clock 0 busy_manager = [sample]"
    by (simp add: resource_batch_def get_messages_in_batch_def busy_manager_def
        new_manager_def stopped_clock_def)
  have tp: "task_payloads
      [PTuple [PEnum WORKFLOW_INFO, workflow_end], PTuple [PEnum TASK_INFO, task_launched],
       PTuple [PEnum TASK_INFO, task_done]] = [task_launched, task_done]"
    by (simp add: as_message_def unpack2_def)
  have wc: "workflow_calls
      [PTuple [PEnum WORKFLOW_INFO, workflow_end], PTuple [PEnum TASK_INFO, task_launched],
       PTuple [PEnum TASK_INFO, task_done]] =
      [Update WORKFLOW
        [''run_id'', ''tasks_failed_count'', ''tasks_completed_count'', ''time_completed'']
        [workflow_end]]"
    by (simp add: as_message_def unpack2_def workflow_end_def)
  have hr: "\<not> has_returned task_launched" "has_returned task_done"
    by (simp_all add: has_returned_def task_launched_def task_done_def)
  have d0: "calls (db busy_manager) = []"
    by (simp add: busy_manager_def new_manager_def new_database_def)
  have f1: "filter has_returned [task_launched, task_done] = [task_done]"
    and f2: "filter (\<lambda>msg. \<not> has_returned msg) [task_launched, task_done] = [task_launched]"
    using hr by simp_all
  note o = cycle_call_order [OF c, unfolded Let_def pb, unfolded tp wc rb f1 f2 d0]
  from o show ?thesis unfolding c by (simp add: outcome_of_cycle_def)
qed

section \<open>A malformed message\<close>



end
